theory Spec2Isabelle
  imports Main
begin

section \<open>Values of the program\<close>

text \<open>
  The class \<open>GuildMember\<close> of \<open>src/structures/GuildMember.js\<close>. Identifiers
  (snowflakes) are strings. A \<open>Role\<close> object is used here only through its \<open>id\<close>
  property; the second field stands for the rest of the object, so that two different
  role objects may carry the same \<open>id\<close>.
\<close>

type_synonym snowflake = string

record role =
  role_id :: snowflake
  role_name :: string

text \<open>
  The user object. The constructor stores the empty object \<open>{}\<close>, whose \<open>id\<close> is
  undefined: \<open>user_id = None\<close>.
\<close>

record user =
  user_id :: "snowflake option"

text \<open>
  An element of a role array: the methods accept \<open>Role[]\<close> and \<open>string[]\<close>, and
  \<open>removeRoles\<close> tells the two apart with \<open>role instanceof Role\<close>.
\<close>

datatype role_resolvable = is_RoleObject: RoleObject role | is_RoleID: RoleID snowflake

subsection \<open>Collection\<close>

text \<open>
  \<open>Collection\<close> extends the JavaScript \<open>Map\<close>: keys in insertion order, \<open>set\<close> on a
  key already present replaces the value where it stands, \<open>set\<close> on a new key appends,
  \<open>get\<close> of a missing key is undefined (\<open>None\<close>), \<open>values()\<close> iterates in
  insertion order.
\<close>

type_synonym 'v collection = "(snowflake \<times> 'v) list"

fun coll_get :: "'v collection \<Rightarrow> snowflake \<Rightarrow> 'v option" where
  "coll_get [] k = None"
| "coll_get ((k', v) # c) k = (if k' = k then Some v else coll_get c k)"

fun coll_set :: "'v collection \<Rightarrow> snowflake \<Rightarrow> 'v \<Rightarrow> 'v collection" where
  "coll_set [] k v = [(k, v)]"
| "coll_set ((k', v') # c) k v = (if k' = k then (k, v) # c else (k', v') # coll_set c k v)"

fun coll_delete :: "'v collection \<Rightarrow> snowflake \<Rightarrow> 'v collection" where
  "coll_delete [] k = []"
| "coll_delete ((k', v') # c) k = (if k' = k then coll_delete c k else (k', v') # coll_delete c k)"

definition coll_values :: "'v collection \<Rightarrow> 'v list" where
  "coll_values c = map snd c"

text \<open>
  \<open>collection.get(x)\<close> where \<open>x\<close> is an element of a role array. The keys of the
  collection are identifier strings, so a \<open>Role\<close> object is never one of them.
\<close>

fun coll_get_elem :: "'v collection \<Rightarrow> role_resolvable \<Rightarrow> 'v option" where
  "coll_get_elem c (RoleID k) = coll_get c k"
| "coll_get_elem c (RoleObject r) = None"

subsection \<open>The guild\<close>

text \<open>
  Of the guild, the member reads \<open>guild.id\<close> and \<open>guild.roles\<close> (the role registry).
  The guild is owned and changed elsewhere, so it is an argument of the getter that
  reads it.
\<close>

record guild =
  guild_id :: snowflake
  guild_roles :: "role collection"

subsection \<open>Arrays\<close>

text \<open>
  JavaScript arrays are objects with identity: \<open>this._roles = data.roles\<close> shares the
  array of the snapshot, \<open>slice()\<close> and \<open>concat\<close> build a new array, \<open>push\<close> and
  \<open>splice\<close> change the array they are called on. The store maps the address of an
  array to its contents; addresses below \<open>fresh\<close> are in use.
\<close>

type_synonym addr = nat

record store =
  array_at :: "addr \<Rightarrow> role_resolvable list"
  fresh :: addr

definition array_new :: "role_resolvable list \<Rightarrow> store \<Rightarrow> addr \<times> store" where
  "array_new xs h = (fresh h, h\<lparr>array_at := (array_at h)(fresh h := xs), fresh := Suc (fresh h)\<rparr>)"

definition array_slice :: "addr \<Rightarrow> store \<Rightarrow> addr \<times> store" where
  "array_slice a h = array_new (array_at h a) h"

definition array_concat :: "addr \<Rightarrow> role_resolvable list \<Rightarrow> store \<Rightarrow> addr \<times> store" where
  "array_concat a ys h = array_new (array_at h a @ ys) h"

definition array_push :: "addr \<Rightarrow> role_resolvable \<Rightarrow> store \<Rightarrow> store" where
  "array_push a v h = h\<lparr>array_at := (array_at h)(a := array_at h a @ [v])\<rparr>"

text \<open>\<open>indexOf\<close>: the index of the first element strictly equal to \<open>v\<close>, or \<open>-1\<close>.\<close>

fun indexOf_from :: "'a list \<Rightarrow> 'a \<Rightarrow> int \<Rightarrow> int" where
  "indexOf_from [] v i = - 1"
| "indexOf_from (x # xs) v i = (if x = v then i else indexOf_from xs v (i + 1))"

definition indexOf :: "'a list \<Rightarrow> 'a \<Rightarrow> int" where
  "indexOf xs v = indexOf_from xs v 0"

text \<open>\<open>splice(start, deleteCount)\<close> for \<open>start \<ge> 0\<close>: what is left of the array.\<close>

definition splice_js :: "'a list \<Rightarrow> nat \<Rightarrow> nat \<Rightarrow> 'a list" where
  "splice_js xs start deleteCount = take start xs @ drop (start + deleteCount) xs"

definition array_indexOf :: "addr \<Rightarrow> role_resolvable \<Rightarrow> store \<Rightarrow> int" where
  "array_indexOf a v h = indexOf (array_at h a) v"

definition array_splice :: "addr \<Rightarrow> nat \<Rightarrow> nat \<Rightarrow> store \<Rightarrow> store" where
  "array_splice a start deleteCount h =
     h\<lparr>array_at := (array_at h)(a := splice_js (array_at h a) start deleteCount)\<rparr>"

section \<open>GuildMember\<close>

text \<open>
  The snapshot \<open>data\<close> read by the method \<open>setup\<close>, which is \<open>member_setup\<close>
  here. \<open>data_joined_at\<close> is the instant that \<open>new Date(data.joined_at).getTime()\<close>
  yields, in milliseconds; \<open>data_roles\<close> is the address of the array \<open>data.roles\<close>.
\<close>

record snapshot =
  data_deaf :: bool
  data_mute :: bool
  data_self_mute :: bool
  data_self_deaf :: bool
  data_session_id :: "string option"
  data_channel_id :: "snowflake option"
  data_nick :: "string option"
  data_user :: user
  data_roles :: addr
  data_joined_at :: int

text \<open>
  The fields of \<open>this\<close>. A property that has not been assigned yet is undefined
  (\<open>None\<close>). \<open>priv_roles\<close> is \<open>this._roles\<close> (the address of the array) and
  \<open>priv_joinDate\<close> is \<open>this._joinDate\<close>.
\<close>

record guild_member =
  serverDeaf :: "bool option"
  serverMute :: "bool option"
  selfMute :: "bool option"
  selfDeaf :: "bool option"
  voiceSessionID :: "string option"
  voiceChannelID :: "snowflake option"
  speaking :: "bool option"
  nickname :: "string option"
  user :: user
  priv_roles :: addr
  priv_joinDate :: "int option"

definition member_setup :: "snapshot \<Rightarrow> guild_member \<Rightarrow> guild_member" where
  "member_setup data this =
     this\<lparr>serverDeaf := Some (data_deaf data),
          serverMute := Some (data_mute data),
          selfMute := Some (data_self_mute data),
          selfDeaf := Some (data_self_deaf data),
          voiceSessionID := data_session_id data,
          voiceChannelID := data_channel_id data,
          speaking := speaking this,
          nickname := data_nick data,
          user := data_user data,
          priv_roles := data_roles data,
          priv_joinDate := Some (data_joined_at data)\<rparr>"

text \<open>The constructor: \<open>this.user = {}\<close>, \<open>this._roles = []\<close>, then \<open>setup\<close> if data is given.\<close>

definition constructor :: "snapshot option \<Rightarrow> store \<Rightarrow> guild_member \<times> store" where
  "constructor data h =
     (let (a, h1) = array_new [] h;
          this = \<lparr>serverDeaf = None, serverMute = None, selfMute = None, selfDeaf = None,
                  voiceSessionID = None, voiceChannelID = None, speaking = None,
                  nickname = None, user = \<lparr>user_id = None\<rparr>, priv_roles = a,
                  priv_joinDate = None\<rparr>
      in (case data of None \<Rightarrow> (this, h1) | Some d \<Rightarrow> (member_setup d this, h1)))"

subsection \<open>The getter \<open>roles\<close>\<close>

fun roles_loop :: "guild \<Rightarrow> role_resolvable list \<Rightarrow> role collection \<Rightarrow> role collection" where
  "roles_loop g [] list = list"
| "roles_loop g (roleID # rest) list =
     (case coll_get_elem (guild_roles g) roleID of
        None \<Rightarrow> roles_loop g rest list
      | Some role \<Rightarrow> roles_loop g rest (coll_set list (role_id role) role))"

definition roles :: "guild \<Rightarrow> guild_member \<Rightarrow> store \<Rightarrow> role collection" where
  "roles g this h =
     (let list = (case coll_get (guild_roles g) (guild_id g) of
                    None \<Rightarrow> []
                  | Some everyoneRole \<Rightarrow> coll_set [] (role_id everyoneRole) everyoneRole)
      in roles_loop g (array_at h (priv_roles this)) list)"

subsection \<open>Mutation methods\<close>

text \<open>
  The argument \<open>roles\<close> of \<open>setRoles\<close>, \<open>addRoles\<close> and \<open>removeRoles\<close> (written
  \<open>roles'\<close> below, \<open>roles\<close> being the getter): a \<open>Collection\<close> of roles, or an
  array of roles and identifiers.
\<close>

datatype roles_arg = Coll "role collection" | Arr "role_resolvable list"

text \<open>The object handed to \<open>edit\<close>: one property each time.\<close>

datatype edit_data =
  Mute bool | Deaf bool | Channel snowflake | Roles roles_arg | Nick string

text \<open>
  The calls on \<open>this.client.rest.methods\<close>, which is outside this class: a method
  returns the call it makes, together with the fields of \<open>this\<close> and the store as it
  leaves them. The member and its guild, passed in every call, are left out. A role
  array in a call is recorded with the contents it has at the call.
\<close>

datatype request =
  UpdateGuildMember edit_data
| DeleteChannel
| KickGuildMember
| BanGuildMember int

type_synonym 'a call = "guild_member \<Rightarrow> store \<Rightarrow> 'a \<times> guild_member \<times> store"

definition edit :: "edit_data \<Rightarrow> request call" where
  "edit data this h = (UpdateGuildMember data, this, h)"

definition setMute :: "bool \<Rightarrow> request call" where
  "setMute mute this h = edit (Mute mute) this h"

definition setDeaf :: "bool \<Rightarrow> request call" where
  "setDeaf deaf this h = edit (Deaf deaf) this h"

definition setVoiceChannel :: "snowflake \<Rightarrow> request call" where
  "setVoiceChannel channel this h = edit (Channel channel) this h"

definition setRoles :: "roles_arg \<Rightarrow> request call" where
  "setRoles roles' this h = edit (Roles roles') this h"

fun addRoles_loop :: "addr \<Rightarrow> role list \<Rightarrow> store \<Rightarrow> store" where
  "addRoles_loop allRoles [] h = h"
| "addRoles_loop allRoles (role # rest) h =
     addRoles_loop allRoles rest (array_push allRoles (RoleID (role_id role)) h)"

definition addRoles :: "roles_arg \<Rightarrow> request call" where
  "addRoles roles' this h =
     (case roles' of
        Coll c \<Rightarrow>
          (let (allRoles, h1) = array_slice (priv_roles this) h;
               h2 = addRoles_loop allRoles (coll_values c) h1
           in edit (Roles (Arr (array_at h2 allRoles))) this h2)
      | Arr xs \<Rightarrow>
          (let (allRoles, h1) = array_concat (priv_roles this) xs h
           in edit (Roles (Arr (array_at h1 allRoles))) this h1))"

definition addRole :: "role_resolvable \<Rightarrow> request call" where
  "addRole role this h = addRoles (Arr [role]) this h"

text \<open>\<open>role instanceof Role ? role.id : role\<close>\<close>

fun resolve_id :: "role_resolvable \<Rightarrow> role_resolvable" where
  "resolve_id (RoleObject r) = RoleID (role_id r)"
| "resolve_id (RoleID k) = RoleID k"

fun removeRoles_coll_loop :: "addr \<Rightarrow> role list \<Rightarrow> store \<Rightarrow> store" where
  "removeRoles_coll_loop allRoles [] h = h"
| "removeRoles_coll_loop allRoles (role # rest) h =
     (let index = array_indexOf allRoles (RoleID (role_id role)) h
      in removeRoles_coll_loop allRoles rest
           (if index \<ge> 0 then array_splice allRoles (nat index) 1 h else h))"

fun removeRoles_arr_loop :: "addr \<Rightarrow> role_resolvable list \<Rightarrow> store \<Rightarrow> store" where
  "removeRoles_arr_loop allRoles [] h = h"
| "removeRoles_arr_loop allRoles (role # rest) h =
     (let index = array_indexOf allRoles (resolve_id role) h
      in removeRoles_arr_loop allRoles rest
           (if index \<ge> 0 then array_splice allRoles (nat index) 1 h else h))"

definition removeRoles :: "roles_arg \<Rightarrow> request call" where
  "removeRoles roles' this h =
     (let (allRoles, h1) = array_slice (priv_roles this) h;
          h2 = (case roles' of
                  Coll c \<Rightarrow> removeRoles_coll_loop allRoles (coll_values c) h1
                | Arr xs \<Rightarrow> removeRoles_arr_loop allRoles xs h1)
      in edit (Roles (Arr (array_at h2 allRoles))) this h2)"

definition removeRole :: "role_resolvable \<Rightarrow> request call" where
  "removeRole role this h = removeRoles (Arr [role]) this h"

definition setNickname :: "string \<Rightarrow> request call" where
  "setNickname nick this h = edit (Nick nick) this h"

definition deleteDM :: "request call" where
  "deleteDM this h = (DeleteChannel, this, h)"

definition kick :: "request call" where
  "kick this h = (KickGuildMember, this, h)"

text \<open>\<open>ban(deleteDays = 0)\<close>: an argument left out (\<open>None\<close>) takes the default.\<close>

definition ban :: "int option \<Rightarrow> request call" where
  "ban deleteDays this h =
     (let deleteDays = (case deleteDays of None \<Rightarrow> 0 | Some d \<Rightarrow> d)
      in (BanGuildMember deleteDays, this, h))"

subsection \<open>Derived notions used in the statements\<close>

text \<open>
  The values that the loops of \<open>removeRoles\<close> search for, in order: \<open>role.id\<close> for
  each value of a collection, \<open>role instanceof Role ? role.id : role\<close> for each element
  of an array.
\<close>

fun requested_ids :: "roles_arg \<Rightarrow> role_resolvable list" where
  "requested_ids (Coll c) = map (\<lambda>role. RoleID (role_id role)) (coll_values c)"
| "requested_ids (Arr xs) = map resolve_id xs"

text \<open>A registry that holds every role under the role's own \<open>id\<close>.\<close>

fun well_keyed :: "role collection \<Rightarrow> bool" where
  "well_keyed [] = True"
| "well_keyed ((k, r) # c) = (role_id r = k \<and> well_keyed c)"

text \<open>
  What a method leaves of the member: the fields of \<open>this\<close> and the contents of the
  array \<open>this._roles\<close>.
\<close>

definition local_state_unchanged ::
  "guild_member \<Rightarrow> store \<Rightarrow> 'a \<times> guild_member \<times> store \<Rightarrow> bool" where
  "local_state_unchanged this h res =
     (fst (snd res) = this \<and>
      array_at (snd (snd res)) (priv_roles this) = array_at h (priv_roles this))"

text \<open>
  A role list that consists of bare identifiers only: an array without \<open>Role\<close> objects.
  A collection is never such a list, even an empty one: it is a \<open>Map\<close> whose values are
  \<open>Role\<close> objects. A call that submits such a list.
\<close>

fun bare_identifiers :: "roles_arg \<Rightarrow> bool" where
  "bare_identifiers (Arr xs) = list_all is_RoleID xs"
| "bare_identifiers (Coll c) = False"

fun submits_bare_identifiers :: "request \<Rightarrow> bool" where
  "submits_bare_identifiers (UpdateGuildMember (Roles r)) = bare_identifiers r"
| "submits_bare_identifiers _ = False"

subsection \<open>Example data\<close>

text \<open>
  The guild \<open>G\<close> whose registry holds the roles \<open>G\<close> and \<open>R1\<close>, the same guild with
  no role under its own identifier, and a member built from a snapshot with the roles
  \<open>R1\<close> and \<open>R2\<close>, the nickname \<open>Al\<close> and the join date 2021-01-01T00:00:00Z.
  \<open>store_snapshot_Al\<close> holds the array of the snapshot; \<open>store_Al\<close> is the store that
  the constructor leaves.
\<close>

definition role_G :: role where
  "role_G = \<lparr>role_id = ''G'', role_name = ''everyone''\<rparr>"

definition role_R1 :: role where
  "role_R1 = \<lparr>role_id = ''R1'', role_name = ''one''\<rparr>"

definition guild_G :: guild where
  "guild_G = \<lparr>guild_id = ''G'', guild_roles = [(''G'', role_G), (''R1'', role_R1)]\<rparr>"

definition guild_no_default :: guild where
  "guild_no_default = \<lparr>guild_id = ''G'', guild_roles = [(''R1'', role_R1)]\<rparr>"

definition store_snapshot_Al :: store where
  "store_snapshot_Al = \<lparr>array_at = (\<lambda>_. [])(0 := [RoleID ''R1'', RoleID ''R2'']), fresh = 1\<rparr>"

definition snapshot_Al :: snapshot where
  "snapshot_Al =
     \<lparr>data_deaf = False, data_mute = False, data_self_mute = False, data_self_deaf = False,
      data_session_id = None, data_channel_id = None, data_nick = Some ''Al'',
      data_user = \<lparr>user_id = Some ''U''\<rparr>, data_roles = 0,
      data_joined_at = 1609459200000\<rparr>"

definition member_Al :: guild_member where
  "member_Al = fst (constructor (Some snapshot_Al) store_snapshot_Al)"

definition store_Al :: store where
  "store_Al = snd (constructor (Some snapshot_Al) store_snapshot_Al)"

section \<open>Arrays: searching and removing\<close>

lemma indexOf_from_absent: "v \<notin> set xs \<Longrightarrow> indexOf_from xs v i = - 1"
  by (induction xs arbitrary: i) auto

lemma indexOf_from_present:
  "v \<in> set xs \<Longrightarrow> 0 \<le> i \<Longrightarrow>
   i \<le> indexOf_from xs v i \<and>
   splice_js xs (nat (indexOf_from xs v i - i)) 1 = remove1 v xs"
proof (induction xs arbitrary: i)
  case Nil
  then show ?case by simp
next
  case (Cons x xs)
  show ?case
  proof (cases "x = v")
    case True
    then show ?thesis by (simp add: splice_js_def)
  next
    case False
    with Cons.prems have mem: "v \<in> set xs" by simp
    from Cons.prems have "0 \<le> i + 1" by simp
    from Cons.IH [OF mem this]
    have le: "i + 1 \<le> indexOf_from xs v (i + 1)"
      and sp: "splice_js xs (nat (indexOf_from xs v (i + 1) - (i + 1))) 1 = remove1 v xs"
      by simp_all
    from le have "nat (indexOf_from xs v (i + 1) - i) = Suc (nat (indexOf_from xs v (i + 1) - (i + 1)))"
      by linarith
    with False le sp show ?thesis by (simp add: splice_js_def)
  qed
qed

lemma splice_indexOf:
  "(if indexOf xs v \<ge> 0 then splice_js xs (nat (indexOf xs v)) 1 else xs) = remove1 v xs"
proof (cases "v \<in> set xs")
  case True
  from indexOf_from_present [OF True, of 0] show ?thesis
    by (simp add: indexOf_def)
next
  case False
  then show ?thesis
    by (simp add: indexOf_def indexOf_from_absent remove1_idem)
qed

lemma array_step:
  "array_at (if array_indexOf a v h \<ge> 0 then array_splice a (nat (array_indexOf a v h)) 1 h else h) b
     = (if b = a then remove1 v (array_at h a) else array_at h b)"
  using splice_indexOf [of "array_at h a" v]
  by (auto simp: array_indexOf_def array_splice_def)

lemma removeRoles_arr_loop_array:
  "array_at (removeRoles_arr_loop a xs h) b =
     (if b = a then foldl (\<lambda>l v. remove1 v l) (array_at h a) (map resolve_id xs) else array_at h b)"
  by (induction xs arbitrary: h) (simp_all add: Let_def array_step)

lemma removeRoles_coll_loop_array:
  "array_at (removeRoles_coll_loop a rs h) b =
     (if b = a then foldl (\<lambda>l v. remove1 v l) (array_at h a) (map (\<lambda>r. RoleID (role_id r)) rs)
      else array_at h b)"
  by (induction rs arbitrary: h) (simp_all add: Let_def array_step)

lemma addRoles_loop_array:
  "array_at (addRoles_loop a rs h) b =
     (if b = a then array_at h a @ map (\<lambda>r. RoleID (role_id r)) rs else array_at h b)"
  by (induction rs arbitrary: h) (simp_all add: array_push_def)

lemma foldl_remove1_distinct:
  "distinct xs \<Longrightarrow> foldl (\<lambda>l v. remove1 v l) xs vs = filter (\<lambda>x. x \<notin> set vs) xs"
proof (induction vs arbitrary: xs)
  case Nil
  then show ?case by simp
next
  case (Cons v vs)
  have r: "remove1 v xs = filter (\<lambda>x. v \<noteq> x) xs"
    using Cons.prems by (simp add: distinct_remove1_removeAll removeAll_filter_not_eq)
  have "foldl (\<lambda>l v. remove1 v l) (remove1 v xs) vs = filter (\<lambda>x. x \<notin> set vs) (remove1 v xs)"
    using Cons.prems by (simp add: Cons.IH)
  also have "\<dots> = filter (\<lambda>x. x \<notin> set (v # vs)) xs"
    unfolding r by (auto intro: filter_cong)
  finally show ?case by simp
qed

lemma count_remove1: "count_list (remove1 v xs) w = count_list xs w - (if v = w then 1 else 0)"
  by (induction xs) auto

lemma count_foldl_remove1:
  "count_list (foldl (\<lambda>l v. remove1 v l) xs vs) w = count_list xs w - count_list vs w"
  by (induction vs arbitrary: xs) (auto simp: count_remove1)

section \<open>What the role methods submit\<close>

lemma removeRoles_request:
  "fst (removeRoles roles' this h) =
     UpdateGuildMember (Roles (Arr (foldl (\<lambda>l v. remove1 v l) (array_at h (priv_roles this))
                                     (requested_ids roles'))))"
  by (cases roles')
     (simp_all add: removeRoles_def array_slice_def array_new_def edit_def
        removeRoles_arr_loop_array removeRoles_coll_loop_array)

lemma addRoles_request:
  "fst (addRoles roles' this h) =
     UpdateGuildMember (Roles (Arr (array_at h (priv_roles this) @
        (case roles' of Coll c \<Rightarrow> map (\<lambda>role. RoleID (role_id role)) (coll_values c)
                      | Arr xs \<Rightarrow> xs))))"
  by (cases roles')
     (simp_all add: addRoles_def array_slice_def array_concat_def array_new_def edit_def
        addRoles_loop_array)

lemma addRoles_store:
  "array_at (snd (snd (addRoles (Arr xs) this h))) a =
     (if a = fresh h then array_at h (priv_roles this) @ xs else array_at h a)"
  by (simp add: addRoles_def array_concat_def array_new_def edit_def)

lemma member_Al_eval:
  "member_Al =
     \<lparr>serverDeaf = Some False, serverMute = Some False, selfMute = Some False,
      selfDeaf = Some False, voiceSessionID = None, voiceChannelID = None,
      speaking = None, nickname = Some ''Al'', user = \<lparr>user_id = Some ''U''\<rparr>,
      priv_roles = 0, priv_joinDate = Some 1609459200000\<rparr>"
  by (simp add: member_Al_def constructor_def array_new_def member_setup_def snapshot_Al_def)

lemma store_Al_eval:
  "array_at store_Al 0 = [RoleID ''R1'', RoleID ''R2'']" "fresh store_Al = 2"
  by (simp_all add: store_Al_def constructor_def array_new_def store_snapshot_Al_def split: option.splits)

lemma removeRoles_frame:
  "priv_roles this < fresh h \<Longrightarrow> local_state_unchanged this h (removeRoles roles' this h)"
  by (cases roles')
     (simp_all add: local_state_unchanged_def removeRoles_def array_slice_def array_new_def
        edit_def removeRoles_arr_loop_array removeRoles_coll_loop_array)

lemma addRoles_frame:
  "priv_roles this < fresh h \<Longrightarrow> local_state_unchanged this h (addRoles roles' this h)"
  by (cases roles')
     (simp_all add: local_state_unchanged_def addRoles_def array_slice_def array_concat_def
        array_new_def edit_def addRoles_loop_array)

text \<open>
  Claim C2, as the code has it. \<open>addRoles\<close> submits the stored list followed by the
  additions in argument order: the order of the stored entries is kept, the identifiers
  of a collection's roles or the elements of an array are appended, and nothing is
  compared with the stored entries, so an identifier that is already stored is submitted
  twice. \<open>addRole(x)\<close> is \<open>addRoles([x])\<close>.
\<close>

theorem addRoles_appends:
  "fst (addRoles (Arr xs) this h) =
     UpdateGuildMember (Roles (Arr (array_at h (priv_roles this) @ xs)))
   \<and> fst (addRoles (Coll c) this h) =
       UpdateGuildMember (Roles (Arr (array_at h (priv_roles this) @
                                       map (\<lambda>role. RoleID (role_id role)) (coll_values c))))
   \<and> addRole role this h = addRoles (Arr [role]) this h"
  by (simp add: addRoles_request addRole_def)

text \<open>
  Claim C2 as stated fails: with the stored list \<open>[R1, R2]\<close>, adding \<open>R1\<close> submits
  \<open>[R1, R2, R1]\<close>, in which \<open>R1\<close> stands twice.
\<close>

theorem addRoles_duplicates_counterexample:
  "fst (addRoles (Arr [RoleID ''R1'']) member_Al store_Al) =
     UpdateGuildMember (Roles (Arr [RoleID ''R1'', RoleID ''R2'', RoleID ''R1'']))
   \<and> \<not> distinct [RoleID ''R1'', RoleID ''R2'', RoleID ''R1'']"
  by (simp add: addRoles_request member_Al_eval store_Al_eval)

lemma list_all_is_RoleID: "list_all is_RoleID xs = (\<exists>ks. xs = map RoleID ks)"
proof (induction xs)
  case Nil
  then show ?case by simp
next
  case (Cons x xs)
  show ?case
  proof (cases x)
    case (RoleObject r)
    then show ?thesis by (auto simp: Cons_eq_map_conv)
  next
    case (RoleID k)
    with Cons.IH show ?thesis by (auto simp: Cons_eq_map_conv)
  qed
qed

lemma bare_identifiers_iff: "bare_identifiers roles' = (\<exists>ks. roles' = Arr (map RoleID ks))"
  by (cases roles') (simp_all add: list_all_is_RoleID)

text \<open>
  Claim C3, as the code has it. \<open>setRoles\<close> submits its argument as it is given, so the
  submitted list consists of bare identifiers exactly when the argument is an array of
  bare identifiers (a collection, empty or not, is submitted as the collection it is).
  \<open>addRoles\<close> given a collection of role objects, or an array of bare identifiers,
  submits bare identifiers only, provided the stored list holds identifiers.
\<close>

theorem setRoles_passes_argument:
  "fst (setRoles roles' this h) = UpdateGuildMember (Roles roles')
   \<and> submits_bare_identifiers (fst (setRoles roles' this h)) = bare_identifiers roles'
   \<and> submits_bare_identifiers (fst (setRoles roles' this h)) =
       (\<exists>ks. roles' = Arr (map RoleID ks))
   \<and> submits_bare_identifiers (fst (addRoles (Coll c) this h)) =
       list_all is_RoleID (array_at h (priv_roles this))
   \<and> submits_bare_identifiers (fst (addRoles (Arr (map RoleID ks)) this h)) =
       list_all is_RoleID (array_at h (priv_roles this))"
proof -
  have passed: "fst (setRoles roles' this h) = UpdateGuildMember (Roles roles')"
    by (simp add: setRoles_def edit_def)
  then have bare: "submits_bare_identifiers (fst (setRoles roles' this h)) = bare_identifiers roles'"
    by simp
  have coll: "submits_bare_identifiers (fst (addRoles (Coll c) this h)) =
       list_all is_RoleID (array_at h (priv_roles this))"
    by (auto simp: addRoles_request list_all_iff)
  have arr: "submits_bare_identifiers (fst (addRoles (Arr (map RoleID ks)) this h)) =
       list_all is_RoleID (array_at h (priv_roles this))"
    by (auto simp: addRoles_request list_all_iff)
  from passed bare coll arr show ?thesis
    by (simp only: bare_identifiers_iff simp_thms)
qed

text \<open>
  Claim C3 as stated fails: \<open>setRoles\<close> given an array with a role object submits the
  role object itself.
\<close>

theorem setRoles_role_objects_counterexample:
  "fst (setRoles (Arr [RoleObject role_R1]) member_Al store_Al) =
     UpdateGuildMember (Roles (Arr [RoleObject role_R1]))
   \<and> \<not> submits_bare_identifiers (fst (setRoles (Arr [RoleObject role_R1]) member_Al store_Al))"
  by (simp add: setRoles_def edit_def)

text \<open>
  Claim C7. When the stored list has no duplicates, \<open>removeRoles\<close> submits the stored
  list without the requested identifiers (role objects are searched for by their
  \<open>id\<close>), the remaining entries in their order; a request for an identifier that is
  not stored changes nothing, and a list is submitted in every case. Hence, when \<open>A\<close>
  is not stored and differs from \<open>B\<close>, \<open>addRoles([A, B])\<close> submits the stored list
  followed by \<open>A\<close> and \<open>B\<close>, and once a refresh has made that list the stored one,
  \<open>removeRoles([A])\<close> submits the former stored list followed by \<open>B\<close>.
\<close>

theorem removeRoles_minus_requested:
  assumes "distinct (array_at h (priv_roles this))"
  shows "fst (removeRoles roles' this h) =
           UpdateGuildMember (Roles (Arr (filter (\<lambda>x. x \<notin> set (requested_ids roles'))
                                           (array_at h (priv_roles this)))))
       \<and> (RoleID A \<notin> set (array_at h (priv_roles this)) \<longrightarrow> A \<noteq> B \<longrightarrow>
            fst (addRoles (Arr [RoleID A, RoleID B]) this h) =
              UpdateGuildMember (Roles (Arr (array_at h (priv_roles this) @ [RoleID A, RoleID B])))
          \<and> (array_at h' (data_roles d) = array_at h (priv_roles this) @ [RoleID A, RoleID B] \<longrightarrow>
               fst (removeRoles (Arr [RoleID A]) (member_setup d this) h') =
                 UpdateGuildMember (Roles (Arr (array_at h (priv_roles this) @ [RoleID B])))))"
proof -
  have first: "fst (removeRoles roles' this h) =
           UpdateGuildMember (Roles (Arr (filter (\<lambda>x. x \<notin> set (requested_ids roles'))
                                           (array_at h (priv_roles this)))))"
    using assms by (simp add: removeRoles_request foldl_remove1_distinct)
  have stored: "priv_roles (member_setup d this) = data_roles d"
    by (simp add: member_setup_def)
  have second: "fst (removeRoles (Arr [RoleID A]) (member_setup d this) h') =
                 UpdateGuildMember (Roles (Arr (array_at h (priv_roles this) @ [RoleID B])))"
    if "RoleID A \<notin> set (array_at h (priv_roles this))" "A \<noteq> B"
      "array_at h' (data_roles d) = array_at h (priv_roles this) @ [RoleID A, RoleID B]"
    using that by (simp add: removeRoles_request stored remove1_append)
  show ?thesis
    using first second by (simp add: addRoles_request)
qed

theorem removeRoles_minus_requested_witness:
  "distinct (array_at store_Al (priv_roles member_Al))
   \<and> fst (removeRoles (Arr [RoleObject role_R1, RoleID ''R9'']) member_Al store_Al) =
       UpdateGuildMember (Roles (Arr [RoleID ''R2'']))
   \<and> RoleID ''A'' \<notin> set (array_at store_Al (priv_roles member_Al)) \<and> ''A'' \<noteq> ''B''
   \<and> array_at (snd (snd (addRoles (Arr [RoleID ''A'', RoleID ''B'']) member_Al store_Al))) 2 =
       array_at store_Al (priv_roles member_Al) @ [RoleID ''A'', RoleID ''B'']
   \<and> fst (removeRoles (Arr [RoleID ''A''])
            (member_setup (snapshot_Al\<lparr>data_roles := 2\<rparr>) member_Al)
            (snd (snd (addRoles (Arr [RoleID ''A'', RoleID ''B'']) member_Al store_Al)))) =
       UpdateGuildMember (Roles (Arr [RoleID ''R1'', RoleID ''R2'', RoleID ''B'']))"
proof -
  have d: "distinct (array_at store_Al (priv_roles member_Al))"
    by (simp add: member_Al_eval store_Al_eval)
  have applied:
    "array_at (snd (snd (addRoles (Arr [RoleID ''A'', RoleID ''B'']) member_Al store_Al))) 2 =
       array_at store_Al (priv_roles member_Al) @ [RoleID ''A'', RoleID ''B'']"
    by (simp add: addRoles_store store_Al_eval)
  show ?thesis
    using d applied
      removeRoles_minus_requested [OF d, of "Arr [RoleObject role_R1, RoleID ''R9'']" "''A''" "''B''"
        "snd (snd (addRoles (Arr [RoleID ''A'', RoleID ''B'']) member_Al store_Al))"
        "snapshot_Al\<lparr>data_roles := 2\<rparr>"]
    by (simp add: member_Al_eval store_Al_eval role_R1_def)
qed

text \<open>
  Claim C10. \<open>removeRoles\<close> goes through the requests in order and removes, for each,
  the first occurrence that is left of the requested identifier, if there is one: each
  value then occurs in the submitted list as often as in the stored list, less the number
  of requests for it (and never less than zero times). A single request for an
  identifier that is stored several times takes away its first occurrence and leaves the
  later ones.
\<close>

theorem removeRoles_first_occurrence:
  "fst (removeRoles roles' this h) =
     UpdateGuildMember (Roles (Arr (foldl (\<lambda>l v. remove1 v l) (array_at h (priv_roles this))
                                     (requested_ids roles'))))
   \<and> count_list (foldl (\<lambda>l v. remove1 v l) (array_at h (priv_roles this)) (requested_ids roles')) w
       = count_list (array_at h (priv_roles this)) w - count_list (requested_ids roles') w
   \<and> fst (removeRoles (Arr [RoleID k]) this h) =
       UpdateGuildMember (Roles (Arr (remove1 (RoleID k) (array_at h (priv_roles this)))))"
  using removeRoles_request [of "Arr [RoleID k]" this h]
  by (simp add: removeRoles_request count_foldl_remove1)

section \<open>The methods and the local state\<close>

text \<open>
  Claim C6. Each of \<open>setMute\<close>, \<open>setDeaf\<close>, \<open>setVoiceChannel\<close>, \<open>setNickname\<close>,
  \<open>setRoles\<close>, \<open>addRole\<close>, \<open>addRoles\<close>, \<open>removeRole\<close>, \<open>removeRoles\<close>, \<open>kick\<close>
  and \<open>ban\<close> leaves every field of the member and the contents of its stored role array
  as they were: \<open>addRoles\<close> and \<open>removeRoles\<close> work on a copy of the array. The array
  \<open>this._roles\<close> is one that exists in the store.
\<close>

theorem mutations_leave_local_state:
  assumes "priv_roles this < fresh h"
  shows "local_state_unchanged this h (setMute mute this h)
       \<and> local_state_unchanged this h (setDeaf deaf this h)
       \<and> local_state_unchanged this h (setVoiceChannel channel this h)
       \<and> local_state_unchanged this h (setNickname nick this h)
       \<and> local_state_unchanged this h (setRoles roles' this h)
       \<and> local_state_unchanged this h (addRole role this h)
       \<and> local_state_unchanged this h (addRoles roles' this h)
       \<and> local_state_unchanged this h (removeRole role this h)
       \<and> local_state_unchanged this h (removeRoles roles' this h)
       \<and> local_state_unchanged this h (kick this h)
       \<and> local_state_unchanged this h (ban deleteDays this h)"
proof -
  have simple: "local_state_unchanged this h (edit data this h)" for data
    by (simp add: local_state_unchanged_def edit_def)
  have "local_state_unchanged this h (kick this h)"
    by (simp add: local_state_unchanged_def kick_def)
  moreover have "local_state_unchanged this h (ban deleteDays this h)"
    by (simp add: local_state_unchanged_def ban_def)
  ultimately show ?thesis
    using assms simple
    by (simp add: setMute_def setDeaf_def setVoiceChannel_def setNickname_def setRoles_def
        addRole_def removeRole_def addRoles_frame removeRoles_frame)
qed

theorem mutations_leave_local_state_witness:
  "priv_roles member_Al < fresh store_Al
   \<and> local_state_unchanged member_Al store_Al (setRoles (Arr [RoleID ''R3'']) member_Al store_Al)
   \<and> local_state_unchanged member_Al store_Al (addRoles (Arr [RoleID ''R3'']) member_Al store_Al)
   \<and> local_state_unchanged member_Al store_Al (removeRoles (Arr [RoleID ''R3'']) member_Al store_Al)
   \<and> array_at (snd (snd (removeRoles (Arr [RoleID ''R1'']) member_Al store_Al))) 0 =
       [RoleID ''R1'', RoleID ''R2'']
   \<and> local_state_unchanged member_Al store_Al (ban (Some 7) member_Al store_Al)"
proof -
  have a: "priv_roles member_Al < fresh store_Al"
    by (simp add: member_Al_eval store_Al_eval)
  have "local_state_unchanged member_Al store_Al (removeRoles (Arr [RoleID ''R1'']) member_Al store_Al)"
    using mutations_leave_local_state [OF a, where roles' = "Arr [RoleID ''R1'']"] by simp
  then have "array_at (snd (snd (removeRoles (Arr [RoleID ''R1'']) member_Al store_Al))) 0 =
       [RoleID ''R1'', RoleID ''R2'']"
    by (simp add: local_state_unchanged_def member_Al_eval store_Al_eval)
  then show ?thesis
    using a mutations_leave_local_state [OF a, where roles' = "Arr [RoleID ''R3'']"
        and deleteDays = "Some 7"]
    by simp
qed

section \<open>Refreshing the member\<close>

text \<open>
  Claim C9. After \<open>setup\<close> with a snapshot and then with a second one, the fields taken
  from a snapshot (\<open>serverDeaf\<close>, \<open>serverMute\<close>, \<open>selfMute\<close>, \<open>selfDeaf\<close>,
  \<open>voiceSessionID\<close>, \<open>voiceChannelID\<close>, \<open>nickname\<close>, \<open>user\<close> and the stored role
  array) are those of the second snapshot, the member is the one that the second snapshot
  alone would have given, and \<open>speaking\<close> has the value it had before either call.
\<close>

theorem setup_twice:
  "serverDeaf (member_setup d2 (member_setup d1 this)) = Some (data_deaf d2)
   \<and> serverMute (member_setup d2 (member_setup d1 this)) = Some (data_mute d2)
   \<and> selfMute (member_setup d2 (member_setup d1 this)) = Some (data_self_mute d2)
   \<and> selfDeaf (member_setup d2 (member_setup d1 this)) = Some (data_self_deaf d2)
   \<and> voiceSessionID (member_setup d2 (member_setup d1 this)) = data_session_id d2
   \<and> voiceChannelID (member_setup d2 (member_setup d1 this)) = data_channel_id d2
   \<and> nickname (member_setup d2 (member_setup d1 this)) = data_nick d2
   \<and> user (member_setup d2 (member_setup d1 this)) = data_user d2
   \<and> priv_roles (member_setup d2 (member_setup d1 this)) = data_roles d2
   \<and> array_at h (priv_roles (member_setup d2 (member_setup d1 this))) = array_at h (data_roles d2)
   \<and> member_setup d2 (member_setup d1 this) = member_setup d2 this
   \<and> speaking (member_setup d2 (member_setup d1 this)) = speaking (member_setup d1 this)
   \<and> speaking (member_setup d1 this) = speaking this"
  by (simp add: member_setup_def)

text \<open>
  Claim C5, as the code has it. Every \<open>setup\<close> stores the join instant of its snapshot,
  at construction and at each refresh: a refresh leaves the stored join timestamp as it
  was exactly when its snapshot carries the same join instant.
\<close>

theorem setup_sets_joinDate:
  "priv_joinDate (fst (constructor (Some d1) h)) = Some (data_joined_at d1)
   \<and> priv_joinDate (member_setup d2 this) = Some (data_joined_at d2)
   \<and> (priv_joinDate (member_setup d2 (fst (constructor (Some d1) h))) =
        priv_joinDate (fst (constructor (Some d1) h)))
       = (data_joined_at d2 = data_joined_at d1)"
  by (simp add: constructor_def array_new_def member_setup_def)

text \<open>
  Claim C5 as stated fails: the member built from a snapshot with the join date
  2021-01-01 has another join timestamp after a refresh whose snapshot says 1970-01-01.
\<close>

theorem setup_joinDate_counterexample:
  "priv_joinDate member_Al = Some 1609459200000
   \<and> priv_joinDate (member_setup (snapshot_Al\<lparr>data_joined_at := 0\<rparr>) member_Al) = Some 0
   \<and> priv_joinDate (member_setup (snapshot_Al\<lparr>data_joined_at := 0\<rparr>) member_Al)
       \<noteq> priv_joinDate member_Al"
  by (simp add: member_Al_eval member_setup_def)

section \<open>Banning\<close>

text \<open>
  Claim C4, as the code has it. \<open>ban\<close> submits the number of days it is given, whatever
  it is, and 0 when the argument is left out: the submitted number lies between 0 and 7
  exactly when the argument does.
\<close>

theorem ban_submits_argument:
  "fst (ban (Some d) this h) = BanGuildMember d
   \<and> fst (ban None this h) = BanGuildMember 0"
  by (simp add: ban_def)

text \<open>
  Claim C4 as stated fails: \<open>ban(-1)\<close> submits \<open>-1\<close>, neither refused nor brought into
  the range from 0 to 7.
\<close>

theorem ban_out_of_range_counterexample:
  "fst (ban (Some (- 1)) member_Al store_Al) = BanGuildMember (- 1)
   \<and> \<not> (0 \<le> (- 1 :: int) \<and> (- 1 :: int) \<le> 7)"
  by (simp add: ban_def)

section \<open>The role view\<close>

lemma coll_get_set: "coll_get (coll_set c k v) k' = (if k' = k then Some v else coll_get c k')"
  by (induction c) auto

lemma coll_get_delete: "coll_get (coll_delete c k) k' = (if k' = k then None else coll_get c k')"
  by (induction c) auto

lemma coll_get_None: "coll_get c k = None \<longleftrightarrow> k \<notin> fst ` set c"
  by (induction c) (auto split: if_splits)

lemma set_coll_set: "set (coll_set c k v) \<subseteq> insert (k, v) (set c)"
  by (induction c) (auto split: if_splits)

lemma well_keyed_get: "well_keyed c \<Longrightarrow> coll_get c k = Some r \<Longrightarrow> role_id r = k"
  by (induction c) (auto split: if_splits)

lemma well_keyed_delete: "well_keyed c \<Longrightarrow> well_keyed (coll_delete c k)"
  by (induction c) auto

lemma roles_loop_get:
  assumes "well_keyed (guild_roles g)"
  shows "coll_get (roles_loop g xs list) k =
           (if RoleID k \<in> set xs \<and> coll_get (guild_roles g) k \<noteq> None
            then coll_get (guild_roles g) k else coll_get list k)"
proof (induction xs arbitrary: list)
  case Nil
  then show ?case by simp
next
  case (Cons roleID rest)
  show ?case
  proof (cases roleID)
    case (RoleObject r)
    then show ?thesis by (simp add: Cons.IH)
  next
    case (RoleID k')
    show ?thesis
    proof (cases "coll_get (guild_roles g) k'")
      case None
      with RoleID show ?thesis by (auto simp: Cons.IH)
    next
      case (Some role)
      with assms have "role_id role = k'" by (rule well_keyed_get)
      with RoleID Some show ?thesis by (auto simp: Cons.IH coll_get_set)
    qed
  qed
qed

lemma roles_get:
  assumes "well_keyed (guild_roles g)"
  shows "coll_get (roles g this h) k =
           (if k = guild_id g \<or> RoleID k \<in> set (array_at h (priv_roles this))
            then coll_get (guild_roles g) k else None)"
proof (cases "coll_get (guild_roles g) (guild_id g)")
  case None
  then show ?thesis
    by (auto simp: roles_def roles_loop_get [OF assms])
next
  case (Some everyoneRole)
  with assms have "role_id everyoneRole = guild_id g" by (rule well_keyed_get)
  with Some show ?thesis
    by (auto simp: roles_def roles_loop_get [OF assms])
qed

lemma roles_loop_keeps_keys:
  "coll_get list k \<noteq> None \<Longrightarrow> coll_get (roles_loop g xs list) k \<noteq> None"
  by (induction xs arbitrary: list) (auto simp: coll_get_set split: option.splits)

lemma roles_loop_keyed_by_id:
  "\<forall>(k, r) \<in> set list. k = role_id r \<Longrightarrow> \<forall>(k, r) \<in> set (roles_loop g xs list). k = role_id r"
proof (induction xs arbitrary: list)
  case Nil
  then show ?case by simp
next
  case (Cons roleID rest)
  show ?case
  proof (cases "coll_get_elem (guild_roles g) roleID")
    case None
    with Cons show ?thesis by simp
  next
    case (Some role)
    have "\<forall>(k, r) \<in> set (coll_set list (role_id role) role). k = role_id r"
      using Cons.prems set_coll_set [of list "role_id role" role] by auto
    from Cons.IH [OF this] Some show ?thesis by simp
  qed
qed

lemma roles_keyed_by_id: "(k, r) \<in> set (roles g this h) \<Longrightarrow> k = role_id r"
proof -
  have "\<forall>(k, r) \<in> set (roles g this h). k = role_id r"
    unfolding roles_def Let_def
    by (rule roles_loop_keyed_by_id) (auto split: option.splits)
  then show "(k, r) \<in> set (roles g this h) \<Longrightarrow> k = role_id r" by auto
qed

lemma roles_loop_unresolved:
  "roles_loop g (filter (\<lambda>e. coll_get_elem (guild_roles g) e \<noteq> None) xs) list = roles_loop g xs list"
  by (induction xs arbitrary: list) (auto split: option.splits)

text \<open>
  The example member in the example guild: the default role first, then \<open>R1\<close>; the
  stored identifier \<open>R2\<close>, which the registry does not hold, leaves no entry.
\<close>

lemma roles_guild_G_eval:
  "roles guild_G member_Al store_Al = [(''G'', role_G), (''R1'', role_R1)]"
  by (simp add: roles_def guild_G_def member_Al_eval store_Al_eval role_G_def role_R1_def)

text \<open>
  Claim C1, as the code has it. When the registry holds a role under the guild's own
  identifier, the result of the getter \<open>roles\<close> has an entry under that role's \<open>id\<close>,
  whether the stored list is empty or not; in a registry that holds every role under the
  role's own \<open>id\<close>, this entry stands under the guild's identifier and is that role.
  When such a registry holds no role under the guild's identifier, the result has no
  entry under the guild's identifier and holds no role with that \<open>id\<close>.
\<close>

theorem roles_contains_default_role:
  "(coll_get (guild_roles g) (guild_id g) = Some everyoneRole \<longrightarrow>
      coll_get (roles g this h) (role_id everyoneRole) \<noteq> None
      \<and> (well_keyed (guild_roles g) \<longrightarrow>
           coll_get (roles g this h) (guild_id g) = Some everyoneRole))
   \<and> (well_keyed (guild_roles g) \<longrightarrow> coll_get (guild_roles g) (guild_id g) = None \<longrightarrow>
        coll_get (roles g this h) (guild_id g) = None
        \<and> (\<forall>r \<in> set (coll_values (roles g this h)). role_id r \<noteq> guild_id g))"
proof -
  have present: "coll_get (roles g this h) (role_id everyoneRole) \<noteq> None
       \<and> (well_keyed (guild_roles g) \<longrightarrow>
            coll_get (roles g this h) (guild_id g) = Some everyoneRole)"
    if found: "coll_get (guild_roles g) (guild_id g) = Some everyoneRole"
  proof -
    have "coll_get (coll_set [] (role_id everyoneRole) everyoneRole) (role_id everyoneRole) \<noteq> None"
      by simp
    then have "coll_get (roles g this h) (role_id everyoneRole) \<noteq> None"
      using found by (simp add: roles_def roles_loop_keeps_keys)
    then show ?thesis
      using found by (simp add: roles_get)
  qed
  have absent: "coll_get (roles g this h) (guild_id g) = None
        \<and> (\<forall>r \<in> set (coll_values (roles g this h)). role_id r \<noteq> guild_id g)"
    if wk: "well_keyed (guild_roles g)" and none: "coll_get (guild_roles g) (guild_id g) = None"
  proof -
    have no_entry: "coll_get (roles g this h) (guild_id g) = None"
      using none by (simp add: roles_get [OF wk])
    have "role_id r \<noteq> guild_id g" if "r \<in> set (coll_values (roles g this h))" for r
    proof
      assume same: "role_id r = guild_id g"
      from that obtain k where mem: "(k, r) \<in> set (roles g this h)"
        by (auto simp: coll_values_def)
      then have "k = role_id r" by (rule roles_keyed_by_id)
      with same mem have "guild_id g \<in> fst ` set (roles g this h)" by force
      with no_entry show False by (simp add: coll_get_None)
    qed
    with no_entry show ?thesis by blast
  qed
  from present absent show ?thesis by blast
qed

theorem roles_contains_default_role_witness:
  "coll_get (guild_roles guild_G) (guild_id guild_G) = Some role_G
   \<and> well_keyed (guild_roles guild_G)
   \<and> coll_get (roles guild_G member_Al store_Al) (role_id role_G) \<noteq> None
   \<and> coll_get (roles guild_G member_Al store_Al) (guild_id guild_G) = Some role_G
   \<and> well_keyed (guild_roles guild_no_default)
   \<and> coll_get (guild_roles guild_no_default) (guild_id guild_no_default) = None
   \<and> coll_get (roles guild_no_default member_Al store_Al) (guild_id guild_no_default) = None
   \<and> role_R1 \<in> set (coll_values (roles guild_no_default member_Al store_Al))
   \<and> role_id role_R1 \<noteq> guild_id guild_no_default"
proof -
  have a: "coll_get (guild_roles guild_G) (guild_id guild_G) = Some role_G"
    by (simp add: guild_G_def)
  have b: "well_keyed (guild_roles guild_G)"
    by (simp add: guild_G_def role_G_def role_R1_def)
  have c: "well_keyed (guild_roles guild_no_default)"
    by (simp add: guild_no_default_def role_R1_def)
  have d: "coll_get (guild_roles guild_no_default) (guild_id guild_no_default) = None"
    by (simp add: guild_no_default_def)
  have e: "role_R1 \<in> set (coll_values (roles guild_no_default member_Al store_Al))"
    by (simp add: roles_def coll_values_def guild_no_default_def member_Al_eval store_Al_eval
        role_R1_def)
  show ?thesis
    using a b c d e
      roles_contains_default_role [of guild_G role_G member_Al store_Al]
      roles_contains_default_role [of guild_no_default role_G member_Al store_Al]
    by blast
qed

text \<open>
  Claim C1 as stated fails: when the registry has no role under the guild's identifier,
  the result has no default role although the stored list is not empty.
\<close>

theorem roles_without_default_role_counterexample:
  "array_at store_Al (priv_roles member_Al) \<noteq> []
   \<and> roles guild_no_default member_Al store_Al = [(''R1'', role_R1)]
   \<and> coll_get (roles guild_no_default member_Al store_Al) (guild_id guild_no_default) = None"
  by (simp add: roles_def guild_no_default_def member_Al_eval store_Al_eval role_R1_def)

text \<open>
  Claim C8. The getter reads the registry at each call. Let the registry hold every role
  under the role's own \<open>id\<close>, and let \<open>x\<close> be the guild's identifier or a stored
  identifier, with the role \<open>r\<close> under it in the registry. Then \<open>r\<close> is in the result,
  under \<open>x\<close>; once \<open>x\<close> is deleted from the registry, with the member and its stored
  list as they were, the result has no entry under \<open>x\<close> and no longer holds \<open>r\<close>, and its
  other entries are as before. An identifier that the registry does not hold has no
  entry in the result, and the result is the one that the stored list without its
  unresolved identifiers gives.
\<close>

theorem roles_follows_registry:
  assumes "well_keyed (guild_roles g)"
    and "coll_get (guild_roles g) x = Some r"
    and "x = guild_id g \<or> RoleID x \<in> set (array_at h (priv_roles this))"
  shows "coll_get (roles g this h) x = Some r
       \<and> coll_get (roles (g\<lparr>guild_roles := coll_delete (guild_roles g) x\<rparr>) this h) x = None
       \<and> r \<notin> set (coll_values (roles (g\<lparr>guild_roles := coll_delete (guild_roles g) x\<rparr>) this h))
       \<and> (\<forall>k. k \<noteq> x \<longrightarrow>
             coll_get (roles (g\<lparr>guild_roles := coll_delete (guild_roles g) x\<rparr>) this h) k =
             coll_get (roles g this h) k)
       \<and> (\<forall>y. coll_get (guild_roles g) y = None \<longrightarrow> coll_get (roles g this h) y = None)
       \<and> roles g this
             (h\<lparr>array_at := (array_at h)(priv_roles this :=
                   filter (\<lambda>e. coll_get_elem (guild_roles g) e \<noteq> None) (array_at h (priv_roles this)))\<rparr>)
           = roles g this h"
proof -
  let ?g' = "g\<lparr>guild_roles := coll_delete (guild_roles g) x\<rparr>"
  have wk': "well_keyed (guild_roles ?g')"
    using assms(1) by (simp add: well_keyed_delete)
  have first: "coll_get (roles g this h) x = Some r"
    using assms by (simp add: roles_get)
  have second: "coll_get (roles ?g' this h) x = None"
    by (simp add: roles_get [OF wk'] coll_get_delete)
  have third: "r \<notin> set (coll_values (roles ?g' this h))"
  proof
    assume "r \<in> set (coll_values (roles ?g' this h))"
    then obtain k where mem: "(k, r) \<in> set (roles ?g' this h)"
      by (auto simp: coll_values_def)
    then have "k = role_id r" by (rule roles_keyed_by_id)
    moreover have "role_id r = x"
      using assms(1,2) by (rule well_keyed_get)
    ultimately have "x \<in> fst ` set (roles ?g' this h)"
      using mem by force
    with second show False by (simp add: coll_get_None)
  qed
  have others: "coll_get (roles ?g' this h) k = coll_get (roles g this h) k" if "k \<noteq> x" for k
    using that by (simp add: roles_get [OF wk'] roles_get [OF assms(1)] coll_get_delete)
  have absent: "coll_get (roles g this h) y = None" if "coll_get (guild_roles g) y = None" for y
    using that by (simp add: roles_get [OF assms(1)])
  have dropped: "roles g this
             (h\<lparr>array_at := (array_at h)(priv_roles this :=
                   filter (\<lambda>e. coll_get_elem (guild_roles g) e \<noteq> None) (array_at h (priv_roles this)))\<rparr>)
           = roles g this h"
    by (simp add: roles_def roles_loop_unresolved del: not_None_eq)
  from first second third others absent dropped show ?thesis by blast
qed

theorem roles_follows_registry_witness:
  "well_keyed (guild_roles guild_G)
   \<and> coll_get (guild_roles guild_G) ''R1'' = Some role_R1
   \<and> (''R1'' = guild_id guild_G \<or> RoleID ''R1'' \<in> set (array_at store_Al (priv_roles member_Al)))
   \<and> coll_get (roles guild_G member_Al store_Al) ''R1'' = Some role_R1
   \<and> coll_get (roles (guild_G\<lparr>guild_roles := coll_delete (guild_roles guild_G) ''R1''\<rparr>)
                  member_Al store_Al) ''R1'' = None
   \<and> ''G'' \<noteq> ''R1''
   \<and> coll_get (roles (guild_G\<lparr>guild_roles := coll_delete (guild_roles guild_G) ''R1''\<rparr>)
                  member_Al store_Al) ''G'' = coll_get (roles guild_G member_Al store_Al) ''G''
   \<and> coll_get (guild_roles guild_G) ''R2'' = None
   \<and> coll_get (roles guild_G member_Al store_Al) ''R2'' = None"
proof -
  have a: "well_keyed (guild_roles guild_G)"
    by (simp add: guild_G_def role_G_def role_R1_def)
  have b: "coll_get (guild_roles guild_G) ''R1'' = Some role_R1"
    by (simp add: guild_G_def)
  have c: "''R1'' = guild_id guild_G \<or> RoleID ''R1'' \<in> set (array_at store_Al (priv_roles member_Al))"
    by (simp add: member_Al_eval store_Al_eval)
  have d: "coll_get (guild_roles guild_G) ''R2'' = None"
    by (simp add: guild_G_def)
  have e: "''G'' \<noteq> ''R1''"
    by simp
  show ?thesis
    using a b c d e roles_follows_registry [OF a b c] by blast
qed

end
